theory Spec2Isabelle
  imports Complex_Main "HOL-Library.Multiset" "HOL-Library.Product_Lexorder"
begin

section \<open>check_sonarqube_issues.py: data model\<close>

text \<open>
  A model of the script \<^verbatim>\<open>check_sonarqube_issues.py\<close>: the client with its paginated fetch
  and its scoring function, and \<^verbatim>\<open>main\<close> from the reading of the environment to the
  printed table. The service and the environment are parameters; requests and printed
  lines are collected in a trace.

  The script handles JSON objects as Python dicts. A value stored under a key of an issue
  is a string, an integer or a float. A string is a list of characters, one per character
  that Python counts. A float is modelled by the rational it denotes, and the product of
  the scoring function is the exact one: the model does not round to binary64. The scores
  that the tables can produce are 0 and twenty products of an integer from 1 to 5 with
  1.5, 1.3, 1.2 or 1.0; distinct ones differ by at least 0.1, far more than a rounding
  error, and the two pairs that coincide (5 * 1.2 with 4 * 1.5, and 3 * 1.0 with
  2 * 1.5) coincide in binary64 as well, so the order of the scores is the same.
\<close>

datatype pyval = PyStr string | PyInt int | PyFloat rat

type_synonym issue = "string \<rightharpoonup> pyval"

text \<open>The exceptions that the modelled statements can raise.\<close>

datatype py_error = KeyError | ValueError | TypeError | AttributeError | IndexError

text \<open>\<^verbatim>\<open>d.get(k, default)\<close> and \<^verbatim>\<open>d[k]\<close> on the dict of an issue.\<close>

definition dict_get :: "('k \<rightharpoonup> 'v) \<Rightarrow> 'k \<Rightarrow> 'v \<Rightarrow> 'v" where
  "dict_get d k dflt = (case d k of None \<Rightarrow> dflt | Some v \<Rightarrow> v)"

definition dict_item :: "('k \<rightharpoonup> 'v) \<Rightarrow> 'k \<Rightarrow> py_error + 'v" where
  "dict_item d k = (case d k of None \<Rightarrow> Inl KeyError | Some v \<Rightarrow> Inr v)"

section \<open>SonarQubeClient.get\_priority\_score\<close>

definition severity_scores :: "pyval \<rightharpoonup> int" where
  "severity_scores = map_of
     [(PyStr ''BLOCKER'', 5),
      (PyStr ''CRITICAL'', 4),
      (PyStr ''MAJOR'', 3),
      (PyStr ''MINOR'', 2),
      (PyStr ''INFO'', 1)]"

definition type_multiplier :: "pyval \<rightharpoonup> rat" where
  "type_multiplier = map_of
     [(PyStr ''VULNERABILITY'', 1.5),
      (PyStr ''BUG'', 1.3),
      (PyStr ''SECURITY_HOTSPOT'', 1.2),
      (PyStr ''CODE_SMELL'', 1.0)]"

definition get_priority_score :: "pyval \<Rightarrow> pyval \<Rightarrow> rat" where
  "get_priority_score severity type' =
     (let severity_score = dict_get severity_scores severity 0;
          multiplier = dict_get type_multiplier type' 1.0
      in of_int severity_score * multiplier)"

section \<open>SonarQubeClient: construction and the paginated fetch\<close>

record client =
  base_url :: string
  token :: string
  project_key :: string
  session_auth :: "string \<times> string"

definition rstrip :: "char \<Rightarrow> string \<Rightarrow> string" where
  "rstrip c s = rev (dropWhile (\<lambda>x. x = c) (rev s))"

definition SonarQubeClient :: "string \<Rightarrow> string \<Rightarrow> string \<Rightarrow> client" where
  "SonarQubeClient url tok key =
     \<lparr>base_url = rstrip CHR ''/'' url, token = tok, project_key = key,
      session_auth = (tok, '''')\<rparr>"

text \<open>
  One GET of \<^verbatim>\<open>session.get(url, params=params, timeout=10)\<close>: the URL, the credentials of
  the session, the six query parameters and the timeout.
\<close>

record request =
  req_url :: string
  req_auth :: "string \<times> string"
  param_componentKeys :: string
  param_branch :: string
  param_statuses :: string
  param_types :: string
  param_p :: nat
  param_ps :: nat
  req_timeout :: nat

text \<open>
  What the three statements \<^verbatim>\<open>session.get\<close>, \<^verbatim>\<open>raise_for_status\<close> and \<^verbatim>\<open>response.json\<close>
  yield for a request: an exception of the class \<^verbatim>\<open>requests.exceptions.RequestException\<close>
  (a timeout, a connection error or an HTTP error status) with the text \<^verbatim>\<open>str(e)\<close>, or
  the decoded JSON object. Of the object the loop reads the keys \<^verbatim>\<open>issues\<close> and
  \<^verbatim>\<open>total\<close>, either of which may be absent. The service is a parameter of the model: a
  function from requests to responses.
\<close>

datatype failure = Timeout | ConnectionError | HTTPError

record body =
  body_issues :: "issue list option"
  body_total :: "int option"

datatype response = RequestException failure string | Json body

text \<open>A row of \<^verbatim>\<open>table_data\<close>, in the order of the six columns.\<close>

record row =
  row_index :: nat
  row_severity :: pyval
  row_type :: pyval
  row_message :: string
  row_component :: string
  row_line :: pyval

text \<open>
  The observable effects, in program order: HTTP requests, lines printed, and the table
  handed to \<^verbatim>\<open>tabulate\<close> with its headers (the text that library draws is not modelled).
\<close>

datatype event = Http_get request | Print string | Print_table "string list" "row list"

text \<open>
  How a call ends: with a value, with \<^verbatim>\<open>sys.exit(n)\<close>, or with an exception that nothing
  catches.
\<close>

datatype 'a outcome = Return 'a | Exit int | Uncaught py_error

text \<open>The slice \<^verbatim>\<open>xs[:n]\<close>; a negative bound counts from the end.\<close>

definition slice_to :: "'a list \<Rightarrow> int \<Rightarrow> 'a list" where
  "slice_to xs n = (if 0 \<le> n then take (nat n) xs else take (length xs - nat (- n)) xs)"

definition search_request :: "client \<Rightarrow> nat \<Rightarrow> request" where
  "search_request self page =
     \<lparr>req_url = base_url self @ ''/api/issues/search'',
      req_auth = session_auth self,
      param_componentKeys = project_key self,
      param_branch = ''main'',
      param_statuses = ''OPEN'',
      param_types = ''CODE_SMELL'',
      param_p = page,
      param_ps = 100,
      req_timeout = 10\<rparr>"

text \<open>\<^verbatim>\<open>data.get('issues', [])\<close> and \<^verbatim>\<open>data.get('total', 0)\<close>.\<close>

definition data_issues :: "body \<Rightarrow> issue list" where
  "data_issues data = (case body_issues data of None \<Rightarrow> [] | Some xs \<Rightarrow> xs)"

definition data_total :: "body \<Rightarrow> int" where
  "data_total data = (case body_total data of None \<Rightarrow> 0 | Some t \<Rightarrow> t)"

text \<open>
  The \<^verbatim>\<open>while\<close> loop of \<^verbatim>\<open>get_issues\<close>, from the state (\<open>page\<close>, \<open>all_issues\<close>). It
  returns the events of the remaining iterations and either the final \<open>all_issues\<close> or
  the exit of the \<^verbatim>\<open>except\<close> branch.
\<close>

function get_issues_loop ::
  "(request \<Rightarrow> response) \<Rightarrow> client \<Rightarrow> int \<Rightarrow> nat \<Rightarrow> issue list \<Rightarrow> event list \<times> issue list outcome"
where
  "get_issues_loop http self limit page all_issues =
     (if int (length all_issues) < limit then
        (case http (search_request self page) of
           RequestException kind e \<Rightarrow>
             ([Http_get (search_request self page), Print (''Error fetching issues: '' @ e)],
              Exit 1)
         | Json data \<Rightarrow>
             (if data_issues data = [] then
                ([Http_get (search_request self page)], Return all_issues)
              else if data_total data \<le> int (length (all_issues @ data_issues data)) then
                ([Http_get (search_request self page)],
                 Return (all_issues @ data_issues data))
              else
                apfst ((#) (Http_get (search_request self page)))
                  (get_issues_loop http self limit (page + 1)
                     (all_issues @ data_issues data))))
      else ([], Return all_issues))"
  by pat_completeness auto
termination
  by (relation "measure (\<lambda>(http, self, limit, page, all_issues). nat (limit - int (length all_issues)))")
     auto

definition get_issues ::
  "(request \<Rightarrow> response) \<Rightarrow> client \<Rightarrow> int \<Rightarrow> event list \<times> issue list outcome"
where
  "get_issues http self limit =
     (case get_issues_loop http self limit 1 [] of
        (evs, Return all_issues) \<Rightarrow> (evs, Return (slice_to all_issues limit))
      | (evs, Exit n) \<Rightarrow> (evs, Exit n)
      | (evs, Uncaught e) \<Rightarrow> (evs, Uncaught e))"

section \<open>main: scoring, ranking and the rows of the table\<close>

text \<open>
  The body of the scoring loop: both subscripts raise \<^verbatim>\<open>KeyError\<close> on a missing key;
  the assignment stores the score under \<^verbatim>\<open>priority_score\<close>.
\<close>

definition score_issue :: "issue \<Rightarrow> py_error + issue" where
  "score_issue issue =
     (case dict_item issue ''severity'' of
        Inl e \<Rightarrow> Inl e
      | Inr severity \<Rightarrow>
          (case dict_item issue ''type'' of
             Inl e \<Rightarrow> Inl e
           | Inr type' \<Rightarrow>
               Inr (issue(''priority_score'' \<mapsto> PyFloat (get_priority_score severity type')))))"

fun score_issues :: "issue list \<Rightarrow> py_error + issue list" where
  "score_issues [] = Inr []"
| "score_issues (issue # rest) =
     (case score_issue issue of
        Inl e \<Rightarrow> Inl e
      | Inr scored \<Rightarrow>
          (case score_issues rest of
             Inl e \<Rightarrow> Inl e
           | Inr rest' \<Rightarrow> Inr (scored # rest')))"

text \<open>The list literal of the sort key, and \<^verbatim>\<open>list.index\<close>, which raises \<^verbatim>\<open>ValueError\<close>.\<close>

definition severity_order :: "pyval list" where
  "severity_order =
     [PyStr ''BLOCKER'', PyStr ''CRITICAL'', PyStr ''MAJOR'', PyStr ''MINOR'', PyStr ''INFO'']"

fun list_index :: "'a list \<Rightarrow> 'a \<Rightarrow> py_error + nat" where
  "list_index [] x = Inl ValueError"
| "list_index (y # ys) x =
     (if y = x then Inr 0
      else (case list_index ys x of Inl e \<Rightarrow> Inl e | Inr i \<Rightarrow> Inr (Suc i)))"

text \<open>Unary minus on a stored value; a string has none.\<close>

definition negate :: "pyval \<Rightarrow> py_error + rat" where
  "negate v =
     (case v of
        PyFloat r \<Rightarrow> Inr (- r)
      | PyInt n \<Rightarrow> Inr (- of_int n)
      | PyStr s \<Rightarrow> Inl TypeError)"

text \<open>
  The \<^verbatim>\<open>lambda\<close> of the sort: the pair of the negated score and the position of the
  severity, its components evaluated from left to right.
\<close>

definition priority_key :: "issue \<Rightarrow> py_error + rat \<times> nat" where
  "priority_key x =
     (case dict_item x ''priority_score'' of
        Inl e \<Rightarrow> Inl e
      | Inr score \<Rightarrow>
          (case negate score of
             Inl e \<Rightarrow> Inl e
           | Inr k1 \<Rightarrow>
               (case dict_item x ''severity'' of
                  Inl e \<Rightarrow> Inl e
                | Inr severity \<Rightarrow>
                    (case list_index severity_order severity of
                       Inl e \<Rightarrow> Inl e
                     | Inr k2 \<Rightarrow> Inr (k1, k2)))))"

text \<open>
  \<^verbatim>\<open>list.sort(key=...)\<close> first calls the key function on every element, in list order, and
  an exception of any call ends the sort. It then sorts the elements by their keys; the
  sort is stable, and pairs compare lexicographically.
\<close>

fun keys_of :: "issue list \<Rightarrow> py_error + (rat \<times> nat) list" where
  "keys_of [] = Inr []"
| "keys_of (x # xs) =
     (case priority_key x of
        Inl e \<Rightarrow> Inl e
      | Inr k \<Rightarrow> (case keys_of xs of Inl e \<Rightarrow> Inl e | Inr ks \<Rightarrow> Inr (k # ks)))"

definition sort_issues :: "issue list \<Rightarrow> py_error + issue list" where
  "sort_issues issues =
     (case keys_of issues of
        Inl e \<Rightarrow> Inl e
      | Inr keys \<Rightarrow> Inr (map snd (sort_key fst (zip keys issues))))"

text \<open>\<^verbatim>\<open>str.split(sep)\<close> for a separator of one character, and the subscript \<^verbatim>\<open>[-1]\<close>.\<close>

fun str_split :: "char \<Rightarrow> string \<Rightarrow> string list" where
  "str_split sep [] = [[]]"
| "str_split sep (c # cs) =
     (if c = sep then [] # str_split sep cs
      else (case str_split sep cs of [] \<Rightarrow> [[c]] | w # ws \<Rightarrow> (c # w) # ws))"

definition last_item :: "'a list \<Rightarrow> py_error + 'a" where
  "last_item xs = (case xs of [] \<Rightarrow> Inl IndexError | _ # _ \<Rightarrow> Inr (last xs))"

text \<open>
  One iteration of the loop over \<^verbatim>\<open>enumerate(top_issues, 1)\<close>: the row appended to
  \<^verbatim>\<open>table_data\<close>. Slicing a value that is no string raises \<^verbatim>\<open>TypeError\<close>, and
  \<^verbatim>\<open>split\<close> on one raises \<^verbatim>\<open>AttributeError\<close>. The two counters that the loop also
  updates feed only the summary statistics and are left out.
\<close>

definition make_row :: "nat \<Rightarrow> issue \<Rightarrow> py_error + row" where
  "make_row idx issue =
     (case dict_item issue ''severity'' of
        Inl e \<Rightarrow> Inl e
      | Inr severity \<Rightarrow>
          (case dict_item issue ''type'' of
             Inl e \<Rightarrow> Inl e
           | Inr type' \<Rightarrow>
               (case dict_get issue ''message'' (PyStr ''N/A'') of
                  PyStr message \<Rightarrow>
                    (case dict_get issue ''component'' (PyStr ''N/A'') of
                       PyStr component \<Rightarrow>
                         (case last_item (str_split CHR '':'' component) of
                            Inl e \<Rightarrow> Inl e
                          | Inr segment \<Rightarrow>
                              Inr \<lparr>row_index = idx, row_severity = severity, row_type = type',
                                   row_message = slice_to message 60, row_component = segment,
                                   row_line = dict_get issue ''line'' (PyStr ''-'')\<rparr>)
                     | PyInt n \<Rightarrow> Inl AttributeError
                     | PyFloat r \<Rightarrow> Inl AttributeError)
                | PyInt n \<Rightarrow> Inl TypeError
                | PyFloat r \<Rightarrow> Inl TypeError)))"

fun table_rows :: "nat \<Rightarrow> issue list \<Rightarrow> py_error + row list" where
  "table_rows idx [] = Inr []"
| "table_rows idx (issue # rest) =
     (case make_row idx issue of
        Inl e \<Rightarrow> Inl e
      | Inr r \<Rightarrow>
          (case table_rows (Suc idx) rest of Inl e \<Rightarrow> Inl e | Inr rs \<Rightarrow> Inr (r # rs)))"

definition headers :: "string list" where
  "headers = [''#'', ''Severity'', ''Type'', ''Message'', ''Component'', ''Line'']"

definition banner :: string where
  "banner = replicate 120 CHR ''=''"

text \<open>
  \<^verbatim>\<open>main\<close>, from the environment and the service, up to the printed table. An early
  \<^verbatim>\<open>return\<close> ends the process with status 0. After the table the script prints summary
  statistics (lines 173 to 189), which no statement below is about: the model stops
  there and returns the two numbers they start with, \<^verbatim>\<open>len(issues)\<close> and
  \<^verbatim>\<open>len(top_issues)\<close>.
\<close>

definition main :: "(string \<rightharpoonup> string) \<Rightarrow> (request \<Rightarrow> response) \<Rightarrow> event list \<times> (nat \<times> nat) outcome" where
  "main environ http =
     (let tok = environ ''SONARQ_TOKEN'';
          url = dict_get environ ''SONARQ_BASE_URL'' ''https://sonarcloud.io'';
          key = dict_get environ ''SONARQ_PROJECT_KEY'' ''FreeSideNomad_messaging-platform''
      in if tok = None \<or> tok = Some '''' then
           ([Print ''Error: SONARQ_TOKEN environment variable not set''], Exit 1)
         else
           (let start = [Print (''Connecting to SonarQube at '' @ url),
                         Print (''Project key: '' @ key),
                         Print '''',
                         Print ''Fetching issues...''];
                self = SonarQubeClient url (the tok) key
            in case get_issues http self 500 of
                 (evs, Exit n) \<Rightarrow> (start @ evs, Exit n)
               | (evs, Uncaught e) \<Rightarrow> (start @ evs, Uncaught e)
               | (evs, Return issues) \<Rightarrow>
                   (if issues = [] then (start @ evs @ [Print ''No issues found.''], Exit 0)
                    else
                      (case score_issues issues of
                         Inl e \<Rightarrow> (start @ evs, Uncaught e)
                       | Inr scored \<Rightarrow>
                           (case sort_issues scored of
                              Inl e \<Rightarrow> (start @ evs, Uncaught e)
                            | Inr ranked \<Rightarrow>
                                (case table_rows 1 (slice_to ranked 50) of
                                   Inl e \<Rightarrow> (start @ evs, Uncaught e)
                                 | Inr table_data \<Rightarrow>
                                     (start @ evs @
                                      [Print (CHR 0x0A # banner),
                                       Print ''TOP 50 SONARQUBE ISSUES (sorted by priority)'',
                                       Print (banner @ [CHR 0x0A]),
                                       Print_table headers table_data],
                                      Return (length ranked, length (slice_to ranked 50)))))))))"

section \<open>Services and notions used in the statements\<close>

text \<open>
  A service that holds the list \<open>items\<close> and answers a request for page \<open>p\<close> of size
  \<open>ps\<close> with the \<open>p\<close>-th block of \<open>ps\<close> items and the number of items it holds; the last
  non-empty page may be short and the pages after it are empty.
\<close>

definition paged_service :: "issue list \<Rightarrow> request \<Rightarrow> response" where
  "paged_service items req =
     Json \<lparr>body_issues = Some (take (param_ps req) (drop ((param_p req - 1) * param_ps req) items)),
           body_total = Some (int (length items))\<rparr>"

text \<open>
  A mock that answers every request alike: a page of \<open>n\<close> copies of one issue and a fixed
  total.
\<close>

definition constant_mock :: "nat \<Rightarrow> issue \<Rightarrow> int \<Rightarrow> request \<Rightarrow> response" where
  "constant_mock n issue reported req =
     Json \<lparr>body_issues = Some (replicate n issue), body_total = Some reported\<rparr>"

text \<open>
  The accumulated list of a run: the issues of the responses to the requests of its
  trace, in order.
\<close>

definition accumulated :: "(request \<Rightarrow> response) \<Rightarrow> event list \<Rightarrow> issue list" where
  "accumulated http evs =
     concat (map (\<lambda>ev. case ev of
                          Http_get req \<Rightarrow>
                            (case http req of Json data \<Rightarrow> data_issues data
                                           | RequestException kind e \<Rightarrow> [])
                        | Print s \<Rightarrow> []
                        | Print_table hs rs \<Rightarrow> []) evs)"

text \<open>
  The client that \<^verbatim>\<open>main\<close> constructs from an environment that sets the token, and the
  four lines it prints before the fetch.
\<close>

definition configured_client :: "(string \<rightharpoonup> string) \<Rightarrow> client" where
  "configured_client environ =
     SonarQubeClient (dict_get environ ''SONARQ_BASE_URL'' ''https://sonarcloud.io'')
       (the (environ ''SONARQ_TOKEN''))
       (dict_get environ ''SONARQ_PROJECT_KEY'' ''FreeSideNomad_messaging-platform'')"

definition start_lines :: "(string \<rightharpoonup> string) \<Rightarrow> event list" where
  "start_lines environ =
     [Print (''Connecting to SonarQube at ''
               @ dict_get environ ''SONARQ_BASE_URL'' ''https://sonarcloud.io''),
      Print (''Project key: ''
               @ dict_get environ ''SONARQ_PROJECT_KEY'' ''FreeSideNomad_messaging-platform''),
      Print '''',
      Print ''Fetching issues...'']"

definition example_environ :: "string \<rightharpoonup> string" where
  "example_environ = [''SONARQ_TOKEN'' \<mapsto> ''secret'']"

definition failing_service :: "request \<Rightarrow> response" where
  "failing_service req = RequestException Timeout ''Read timed out.''"

text \<open>
  The order that the ranking is to establish, in the words of the specification: the
  score stored in an issue, and the position of its severity in the fixed list, counted as
  the number of entries before its first occurrence.
\<close>

definition stored_score :: "issue \<Rightarrow> rat" where
  "stored_score x =
     (case x ''priority_score'' of
        Some (PyFloat r) \<Rightarrow> r
      | Some (PyInt n) \<Rightarrow> of_int n
      | Some (PyStr s) \<Rightarrow> 0
      | None \<Rightarrow> 0)"

definition severity_position :: "issue \<Rightarrow> nat" where
  "severity_position x =
     (case x ''severity'' of
        Some s \<Rightarrow> length (takeWhile (\<lambda>y. y \<noteq> s) severity_order)
      | None \<Rightarrow> length severity_order)"



definition unknown_severity_issue :: issue where
  "unknown_severity_issue =
     [''severity'' \<mapsto> PyStr ''TRIVIAL'', ''type'' \<mapsto> PyStr ''CODE_SMELL'']"





definition example_client :: client where
  "example_client = SonarQubeClient ''https://sonarcloud.io/'' ''secret'' ''demo''"

definition example_issue :: issue where
  "example_issue =
     [''severity'' \<mapsto> PyStr ''MAJOR'', ''type'' \<mapsto> PyStr ''CODE_SMELL'',
      ''message'' \<mapsto> PyStr ''Remove this unused import.'',
      ''component'' \<mapsto> PyStr ''project:src/foo/Bar.java'', ''line'' \<mapsto> PyInt 12]"

section \<open>The priority score\<close>

lemma severity_score_cases:
  "dict_get severity_scores severity 0 =
     (if severity = PyStr ''BLOCKER'' then 5
      else if severity = PyStr ''CRITICAL'' then 4
      else if severity = PyStr ''MAJOR'' then 3
      else if severity = PyStr ''MINOR'' then 2
      else if severity = PyStr ''INFO'' then 1
      else 0)"
  by (simp add: dict_get_def severity_scores_def)



section \<open>The fetch loop\<close>

declare get_issues_loop.simps [simp del]

lemma loop_done:
  "\<not> int (length all_issues) < limit \<Longrightarrow>
   get_issues_loop http self limit page all_issues = ([], Return all_issues)"
  by (subst get_issues_loop.simps) simp

lemma loop_fail:
  "int (length all_issues) < limit \<Longrightarrow>
   http (search_request self page) = RequestException kind e \<Longrightarrow>
   get_issues_loop http self limit page all_issues =
     ([Http_get (search_request self page), Print (''Error fetching issues: '' @ e)], Exit 1)"
  by (subst get_issues_loop.simps) simp

lemma loop_empty:
  "int (length all_issues) < limit \<Longrightarrow>
   http (search_request self page) = Json data \<Longrightarrow> data_issues data = [] \<Longrightarrow>
   get_issues_loop http self limit page all_issues =
     ([Http_get (search_request self page)], Return all_issues)"
  by (subst get_issues_loop.simps) simp

lemma loop_total:
  "int (length all_issues) < limit \<Longrightarrow>
   http (search_request self page) = Json data \<Longrightarrow> data_issues data \<noteq> [] \<Longrightarrow>
   data_total data \<le> int (length all_issues + length (data_issues data)) \<Longrightarrow>
   get_issues_loop http self limit page all_issues =
     ([Http_get (search_request self page)], Return (all_issues @ data_issues data))"
  by (subst get_issues_loop.simps) simp

lemma loop_next:
  "int (length all_issues) < limit \<Longrightarrow>
   http (search_request self page) = Json data \<Longrightarrow> data_issues data \<noteq> [] \<Longrightarrow>
   \<not> data_total data \<le> int (length all_issues + length (data_issues data)) \<Longrightarrow>
   get_issues_loop http self limit page all_issues =
     apfst ((#) (Http_get (search_request self page)))
       (get_issues_loop http self limit (Suc page) (all_issues @ data_issues data))"
  by (subst get_issues_loop.simps) simp

text \<open>The loop's induction rule, one case per way an iteration can go.\<close>

lemma loop_induct [case_names stop fail empty total step]:
  assumes "\<And>page all_issues. \<not> int (length all_issues) < limit \<Longrightarrow>
             P page all_issues ([], Return all_issues)"
    and "\<And>page all_issues kind e. int (length all_issues) < limit \<Longrightarrow>
             http (search_request self page) = RequestException kind e \<Longrightarrow>
             P page all_issues
               ([Http_get (search_request self page), Print (''Error fetching issues: '' @ e)],
                Exit 1)"
    and "\<And>page all_issues data. int (length all_issues) < limit \<Longrightarrow>
             http (search_request self page) = Json data \<Longrightarrow> data_issues data = [] \<Longrightarrow>
             P page all_issues ([Http_get (search_request self page)], Return all_issues)"
    and "\<And>page all_issues data. int (length all_issues) < limit \<Longrightarrow>
             http (search_request self page) = Json data \<Longrightarrow> data_issues data \<noteq> [] \<Longrightarrow>
             data_total data \<le> int (length all_issues + length (data_issues data)) \<Longrightarrow>
             P page all_issues
               ([Http_get (search_request self page)], Return (all_issues @ data_issues data))"
    and "\<And>page all_issues data evs out. int (length all_issues) < limit \<Longrightarrow>
             http (search_request self page) = Json data \<Longrightarrow> data_issues data \<noteq> [] \<Longrightarrow>
             \<not> data_total data \<le> int (length all_issues + length (data_issues data)) \<Longrightarrow>
             get_issues_loop http self limit (Suc page) (all_issues @ data_issues data) = (evs, out) \<Longrightarrow>
             P (Suc page) (all_issues @ data_issues data) (evs, out) \<Longrightarrow>
             P page all_issues (Http_get (search_request self page) # evs, out)"
  shows "P page all_issues (get_issues_loop http self limit page all_issues)"
  using assms
proof (induction http self limit page all_issues rule: get_issues_loop.induct)
  case (1 http self limit page all_issues)
  show ?case
  proof (cases "int (length all_issues) < limit")
    case False
    from "1.prems"(1)[OF False] False show ?thesis by (simp add: loop_done)
  next
    case lt: True
    show ?thesis
    proof (cases "http (search_request self page)")
      case (RequestException kind e)
      from "1.prems"(2)[OF lt RequestException] lt RequestException show ?thesis
        by (simp add: loop_fail)
    next
      case (Json data)
      show ?thesis
      proof (cases "data_issues data = []")
        case True
        from "1.prems"(3)[OF lt Json True] lt Json True show ?thesis
          by (simp add: loop_empty)
      next
        case ne: False
        show ?thesis
        proof (cases "data_total data \<le> int (length all_issues + length (data_issues data))")
          case True
          from "1.prems"(4)[OF lt Json ne True] lt Json ne True show ?thesis
            by (simp add: loop_total)
        next
          case False
          obtain evs out where rec:
            "get_issues_loop http self limit (Suc page) (all_issues @ data_issues data) = (evs, out)"
            by (cases "get_issues_loop http self limit (Suc page) (all_issues @ data_issues data)")
          have nt: "\<not> data_total data \<le> int (length (all_issues @ data_issues data))"
            using False by simp
          have "P (Suc page) (all_issues @ data_issues data)
                  (get_issues_loop http self limit (Suc page) (all_issues @ data_issues data))"
            using "1.IH"[OF lt Json ne nt "1.prems"] by simp
          with rec have "P (Suc page) (all_issues @ data_issues data) (evs, out)" by simp
          from "1.prems"(5)[OF lt Json ne False rec this] lt Json ne False rec show ?thesis
            by (simp add: loop_next)
        qed
      qed
    qed
  qed
qed

text \<open>A failed request ends the run: exit status 1, the diagnostic, nothing after it.\<close>

lemma loop_failure:
  "\<forall>req kind e. Http_get req \<in> set (fst res) \<longrightarrow> http req = RequestException kind e \<longrightarrow>
     snd res = Exit 1 \<and>
     (\<exists>pre. fst res = pre @ [Http_get req, Print (''Error fetching issues: '' @ e)] \<and>
            Http_get req \<notin> set pre)"
  if "res = get_issues_loop http self limit page all_issues"
  unfolding that
proof (induction rule: loop_induct)
  case (step page all_issues data evs out)
  show ?case
  proof (intro allI impI)
    fix req kind e
    assume mem: "Http_get req \<in> set (fst (Http_get (search_request self page) # evs, out))"
      and bad: "http req = RequestException kind e"
    from bad step(2) have ne: "req \<noteq> search_request self page" by auto
    with mem have "Http_get req \<in> set evs" by simp
    with step(6)[rule_format, of req kind e] bad have "snd (evs, out) = Exit 1 \<and>
       (\<exists>pre. fst (evs, out) = pre @ [Http_get req, Print (''Error fetching issues: '' @ e)] \<and>
              Http_get req \<notin> set pre)"
      by simp
    then obtain pre where
      "out = Exit 1" "evs = pre @ [Http_get req, Print (''Error fetching issues: '' @ e)]"
      "Http_get req \<notin> set pre"
      by (simp del: append.simps) blast
    with ne show "snd (Http_get (search_request self page) # evs, out) = Exit 1 \<and>
       (\<exists>pre. fst (Http_get (search_request self page) # evs, out) =
                pre @ [Http_get req, Print (''Error fetching issues: '' @ e)] \<and>
              Http_get req \<notin> set pre)"
      by (auto intro!: exI[of _ "Http_get (search_request self page) # pre"])
  qed
qed auto

text \<open>What a run can end with, and what its trace holds.\<close>

lemma loop_result:
  "(case snd res of
      Return r \<Rightarrow> r = all_issues @ accumulated http (fst res) \<and>
                  (\<forall>ev \<in> set (fst res). \<exists>req. ev = Http_get req)
    | Exit n \<Rightarrow> n = 1 \<and> (\<exists>req kind e. Http_get req \<in> set (fst res) \<and>
                                       http req = RequestException kind e)
    | Uncaught e \<Rightarrow> False)"
  if "res = get_issues_loop http self limit page all_issues"
  unfolding that
proof (induction rule: loop_induct)
  case (step page all_issues data evs out)
  then show ?case
    by (cases out) (auto simp: accumulated_def)
qed (auto simp: accumulated_def)

lemma get_issues_fst: "fst (get_issues http self limit) = fst (get_issues_loop http self limit 1 [])"
  by (simp add: get_issues_def split: prod.splits outcome.splits)

lemma get_issues_snd:
  "snd (get_issues http self limit) =
     (case snd (get_issues_loop http self limit 1 []) of
        Return all_issues \<Rightarrow> Return (slice_to all_issues limit)
      | Exit n \<Rightarrow> Exit n
      | Uncaught e \<Rightarrow> Uncaught e)"
  by (simp add: get_issues_def split: prod.splits outcome.splits)

subsection \<open>The paged service\<close>

lemma paged_request:
  "paged_service items (search_request self page) =
     Json \<lparr>body_issues = Some (take 100 (drop ((page - 1) * 100) items)),
           body_total = Some (int (length items))\<rparr>"
  by (simp add: paged_service_def search_request_def)

lemma take_page:
  assumes "0 < page"
  shows "take ((page - 1) * 100) items @ take 100 (drop ((page - 1) * 100) items) =
         take (page * 100) items"
proof -
  from assms have "(page - 1) * 100 + 100 = page * 100" by (cases page) auto
  then show ?thesis by (metis take_add)
qed

lemma paged_stop:
  "int (length all_issues) < limit \<Longrightarrow> take 100 (drop ((page - 1) * 100) items) \<noteq> [] \<Longrightarrow>
   length items \<le> length all_issues + length (take 100 (drop ((page - 1) * 100) items)) \<Longrightarrow>
   get_issues_loop (paged_service items) self limit page all_issues =
     ([Http_get (search_request self page)],
      Return (all_issues @ take 100 (drop ((page - 1) * 100) items)))"
  using loop_total[of all_issues limit "paged_service items" self page
      "\<lparr>body_issues = Some (take 100 (drop ((page - 1) * 100) items)),
        body_total = Some (int (length items))\<rparr>"]
  by (simp add: paged_request data_issues_def data_total_def)

lemma paged_step:
  "int (length all_issues) < limit \<Longrightarrow> take 100 (drop ((page - 1) * 100) items) \<noteq> [] \<Longrightarrow>
   \<not> length items \<le> length all_issues + length (take 100 (drop ((page - 1) * 100) items)) \<Longrightarrow>
   get_issues_loop (paged_service items) self limit page all_issues =
     apfst ((#) (Http_get (search_request self page)))
       (get_issues_loop (paged_service items) self limit (Suc page)
          (all_issues @ take 100 (drop ((page - 1) * 100) items)))"
  using loop_next[of all_issues limit "paged_service items" self page
      "\<lparr>body_issues = Some (take 100 (drop ((page - 1) * 100) items)),
        body_total = Some (int (length items))\<rparr>"]
  by (simp add: paged_request data_issues_def data_total_def)

lemma paged_loop:
  "0 < page \<and> all_issues = take ((page - 1) * 100) items \<longrightarrow>
     (\<exists>m. snd (get_issues_loop (paged_service items) self limit page all_issues) = Return (take m items) \<and>
          (limit \<le> int (length (take m items)) \<or> take m items = items))"
proof (induction rule: loop_induct[where P = "\<lambda>page all_issues res.
    0 < page \<and> all_issues = take ((page - 1) * 100) items \<longrightarrow>
     (\<exists>m. snd res = Return (take m items) \<and>
          (limit \<le> int (length (take m items)) \<or> take m items = items))"])
  case (stop page all_issues)
  then show ?case by auto
next
  case (fail page all_issues kind e)
  then show ?case by (simp add: paged_request)
next
  case (empty page all_issues data)
  then have "drop ((page - 1) * 100) items = []"
    by (auto simp: paged_request data_issues_def)
  then show ?case by (auto intro!: exI[of _ "(page - 1) * 100"])
next
  case (total page all_issues data)
  show ?case
  proof
    assume inv: "0 < page \<and> all_issues = take ((page - 1) * 100) items"
    from total(2) have d: "data_issues data = take 100 (drop ((page - 1) * 100) items)"
      "data_total data = int (length items)"
      by (auto simp: paged_request data_issues_def data_total_def)
    from inv d have app: "all_issues @ data_issues data = take (page * 100) items"
      by (simp add: take_page del: One_nat_def)
    with total(4) d have "length items \<le> length (take (page * 100) items)"
      by (metis length_append of_nat_le_iff)
    then have "take (page * 100) items = items" by simp
    with app show "\<exists>m. snd ([Http_get (search_request self page)], Return (all_issues @ data_issues data)) =
            Return (take m items) \<and>
            (limit \<le> int (length (take m items)) \<or> take m items = items)"
      by (auto intro!: exI[of _ "page * 100"])
  qed
next
  case (step page all_issues data evs out)
  show ?case
  proof
    assume inv: "0 < page \<and> all_issues = take ((page - 1) * 100) items"
    from step(2) have d: "data_issues data = take 100 (drop ((page - 1) * 100) items)"
      by (auto simp: paged_request data_issues_def)
    from inv d have "all_issues @ data_issues data = take ((Suc page - 1) * 100) items"
      by (simp add: take_page del: One_nat_def)
    with step(6) show "\<exists>m. snd (Http_get (search_request self page) # evs, out) = Return (take m items) \<and>
            (limit \<le> int (length (take m items)) \<or> take m items = items)"
      by simp
  qed
qed

lemma get_issues_paged:
  "snd (get_issues (paged_service items) self limit) = Return (take (nat limit) items)"
proof (cases "0 < limit")
  case False
  then show ?thesis
    by (simp add: get_issues_snd loop_done slice_to_def)
next
  case True
  from paged_loop[of 1 "[]" items self limit] obtain m where
    m: "snd (get_issues_loop (paged_service items) self limit 1 []) = Return (take m items)"
      "limit \<le> int (length (take m items)) \<or> take m items = items"
    by auto
  from m(2) True have "take (nat limit) (take m items) = take (nat limit) items"
    by (auto simp: min_def split: if_splits)
  with m(1) True show ?thesis
    by (simp add: get_issues_snd slice_to_def)
qed


lemma mock_request:
  "constant_mock n issue reported (search_request self page) =
     Json \<lparr>body_issues = Some (replicate n issue), body_total = Some reported\<rparr>"
  by (simp add: constant_mock_def)

lemma mock_stop:
  "int (length all_issues) < limit \<Longrightarrow> 0 < n \<Longrightarrow> reported \<le> int (length all_issues + n) \<Longrightarrow>
   get_issues_loop (constant_mock n issue reported) self limit page all_issues =
     ([Http_get (search_request self page)], Return (all_issues @ replicate n issue))"
  using loop_total[of all_issues limit "constant_mock n issue reported" self page
      "\<lparr>body_issues = Some (replicate n issue), body_total = Some reported\<rparr>"]
  by (simp add: mock_request data_issues_def data_total_def)

lemma mock_step:
  "int (length all_issues) < limit \<Longrightarrow> 0 < n \<Longrightarrow> \<not> reported \<le> int (length all_issues + n) \<Longrightarrow>
   get_issues_loop (constant_mock n issue reported) self limit page all_issues =
     apfst ((#) (Http_get (search_request self page)))
       (get_issues_loop (constant_mock n issue reported) self limit (Suc page)
          (all_issues @ replicate n issue))"
  using loop_next[of all_issues limit "constant_mock n issue reported" self page
      "\<lparr>body_issues = Some (replicate n issue), body_total = Some reported\<rparr>"]
  by (simp add: mock_request data_issues_def data_total_def)

lemma paged_250_trace:
  assumes "length items = 250"
  shows "fst (get_issues (paged_service items) self 500) =
     [Http_get (search_request self 1), Http_get (search_request self 2),
      Http_get (search_request self 3)]"
proof -
  from assms have ne: "items \<noteq> []" by auto
  show ?thesis
    using assms ne by (simp add: get_issues_fst paged_step paged_stop numeral_2_eq_2 numeral_3_eq_3)
qed

text \<open>
  C1, as amended. A service that holds 250 issues and serves them in pages of 100 (two
  full pages and a third of 50), reporting the total 250: \<open>get_issues\<close> with limit 500
  makes exactly the three requests for pages 1, 2 and 3 and returns exactly the 250
  issues.
\<close>

theorem pagination_250_in_three_requests:
  assumes "length items = 250"
  shows "get_issues (paged_service items) self 500 =
     ([Http_get (search_request self 1), Http_get (search_request self 2),
       Http_get (search_request self 3)], Return items) \<and> length items = 250"
proof -
  from assms have "snd (get_issues (paged_service items) self 500) = Return items"
    by (simp add: get_issues_paged)
  with paged_250_trace[OF assms, of self] assms show ?thesis
    by (simp add: prod_eq_iff)
qed

theorem pagination_250_in_three_requests_witness:
  "length (replicate 250 example_issue) = 250 \<and>
   get_issues (paged_service (replicate 250 example_issue)) example_client 500 =
     ([Http_get (search_request example_client 1), Http_get (search_request example_client 2),
       Http_get (search_request example_client 3)], Return (replicate 250 example_issue))"
  using pagination_250_in_three_requests[of "replicate 250 example_issue" example_client]
  by simp

text \<open>
  C1 as written, with every page holding 100 issues: a mock that answers each request with
  100 issues and the total 250. The loop never cuts the list at the reported total, so
  after three requests it returns the 300 issues it has collected.
\<close>

theorem full_pages_mock_returns_300:
  "get_issues (constant_mock 100 example_issue 250) example_client 500 =
     ([Http_get (search_request example_client 1), Http_get (search_request example_client 2),
       Http_get (search_request example_client 3)], Return (replicate 300 example_issue)) \<and>
   length (replicate 300 example_issue) \<noteq> 250"
  by (simp add: get_issues_def mock_step mock_stop slice_to_def numeral_2_eq_2 numeral_3_eq_3
        flip: replicate_add)

subsection \<open>What get\_issues returns\<close>

lemma get_issues_cases:
  "(case get_issues http self limit of
      (evs, Return r) \<Rightarrow>
        r = take (nat limit) (accumulated http evs) \<and> length r \<le> nat limit \<and>
        (\<forall>ev \<in> set evs. \<exists>req. ev = Http_get req)
    | (evs, Exit n) \<Rightarrow>
        n = 1 \<and> (\<exists>req kind e. Http_get req \<in> set evs \<and> http req = RequestException kind e)
    | (evs, Uncaught e) \<Rightarrow> False)"
proof (cases "0 < limit")
  case False
  then show ?thesis
    by (simp add: get_issues_def loop_done slice_to_def accumulated_def)
next
  case True
  obtain evs out where loop: "get_issues_loop http self limit 1 [] = (evs, out)"
    by (cases "get_issues_loop http self limit 1 []")
  from loop_result[of "(evs, out)" http self limit 1 "[]"] loop True show ?thesis
    by (cases out) (simp_all add: get_issues_def slice_to_def)
qed

text \<open>
  C4. Whatever the limit and the answers of the service, \<open>get_issues\<close> either returns
  the accumulated list cut to its first \<open>limit\<close> entries (none for a limit below 1), or a
  request failed and the process exits with status 1. In particular, on a paged service
  with 1000 issues and the limit 120 it returns exactly the first 120 issues.
\<close>

theorem get_issues_truncates_to_limit:
  "(case get_issues http self limit of
      (evs, Return r) \<Rightarrow> r = take (nat limit) (accumulated http evs) \<and> length r \<le> nat limit
    | (evs, Exit n) \<Rightarrow>
        n = 1 \<and> (\<exists>req kind e. Http_get req \<in> set evs \<and> http req = RequestException kind e)
    | (evs, Uncaught e) \<Rightarrow> False) \<and>
   (length items = 1000 \<longrightarrow>
      snd (get_issues (paged_service items) self 120) = Return (take 120 items) \<and>
      length (take 120 items) = 120)"
proof
  from get_issues_cases[where http = http and self = self and limit = limit]
  show "case get_issues http self limit of
      (evs, Return r) \<Rightarrow> r = take (nat limit) (accumulated http evs) \<and> length r \<le> nat limit
    | (evs, Exit n) \<Rightarrow>
        n = 1 \<and> (\<exists>req kind e. Http_get req \<in> set evs \<and> http req = RequestException kind e)
    | (evs, Uncaught e) \<Rightarrow> False"
    by (auto split: prod.splits outcome.splits)
next
  show "length items = 1000 \<longrightarrow>
      snd (get_issues (paged_service items) self 120) = Return (take 120 items) \<and>
      length (take 120 items) = 120"
    by (simp add: get_issues_paged)
qed

theorem get_issues_truncates_to_limit_witness:
  "length (replicate 1000 example_issue) = 1000 \<and>
   snd (get_issues (paged_service (replicate 1000 example_issue)) example_client 120) =
     Return (replicate 120 example_issue) \<and>
   length (replicate 120 example_issue) = 120"
  using get_issues_truncates_to_limit
    [where http = "paged_service (replicate 1000 example_issue)" and self = example_client
       and limit = 120 and items = "replicate 1000 example_issue"]
  by simp

subsection \<open>The runs of main\<close>

lemma main_no_token:
  "environ ''SONARQ_TOKEN'' = None \<or> environ ''SONARQ_TOKEN'' = Some '''' \<Longrightarrow>
   main environ http = ([Print ''Error: SONARQ_TOKEN environment variable not set''], Exit 1)"
  by (auto simp: main_def Let_def)

lemma main_token:
  assumes "environ ''SONARQ_TOKEN'' = Some tok" "tok \<noteq> ''''"
  shows "main environ http =
     (case get_issues http (configured_client environ) 500 of
        (evs, Exit n) \<Rightarrow> (start_lines environ @ evs, Exit n)
      | (evs, Uncaught e) \<Rightarrow> (start_lines environ @ evs, Uncaught e)
      | (evs, Return issues) \<Rightarrow>
          (if issues = [] then (start_lines environ @ evs @ [Print ''No issues found.''], Exit 0)
           else
             (case score_issues issues of
                Inl e \<Rightarrow> (start_lines environ @ evs, Uncaught e)
              | Inr scored \<Rightarrow>
                  (case sort_issues scored of
                     Inl e \<Rightarrow> (start_lines environ @ evs, Uncaught e)
                   | Inr ranked \<Rightarrow>
                       (case table_rows 1 (slice_to ranked 50) of
                          Inl e \<Rightarrow> (start_lines environ @ evs, Uncaught e)
                        | Inr table_data \<Rightarrow>
                            (start_lines environ @ evs @
                             [Print (CHR 0x0A # banner),
                              Print ''TOP 50 SONARQUBE ISSUES (sorted by priority)'',
                              Print (banner @ [CHR 0x0A]),
                              Print_table headers table_data],
                             Return (length ranked, length (slice_to ranked 50))))))))"
  using assms
  by (simp add: main_def Let_def configured_client_def start_lines_def
           del: append.simps
           split: prod.splits outcome.splits sum.splits)

lemma start_lines_no_request: "Http_get req \<notin> set (start_lines environ)"
  by (simp add: start_lines_def)

lemma main_requests:
  assumes "Http_get req \<in> set (fst (main environ http))"
  shows "(\<exists>tok. environ ''SONARQ_TOKEN'' = Some tok \<and> tok \<noteq> '''') \<and>
         Http_get req \<in> set (fst (get_issues http (configured_client environ) 500))"
proof (cases "environ ''SONARQ_TOKEN'' = None \<or> environ ''SONARQ_TOKEN'' = Some ''''")
  case True
  with assms show ?thesis by (simp add: main_no_token)
next
  case False
  then obtain tok where tok: "environ ''SONARQ_TOKEN'' = Some tok" "tok \<noteq> ''''" by auto
  from assms tok show ?thesis
    by (auto simp: main_token[of environ tok http] start_lines_no_request
             split: prod.splits outcome.splits sum.splits if_splits)
qed


text \<open>
  C5. If a request that \<open>main\<close> makes ends in a transport failure of any kind (timeout,
  connection error, HTTP error status), the process exits with status 1; the line printed
  right after the request carries the text of the error, and it is the last event: the
  request occurs once in the trace and nothing follows the diagnostic.
\<close>

theorem request_failure_is_fatal:
  assumes "main environ http = (evs, out)"
    and "Http_get req \<in> set evs"
    and "http req = RequestException kind e"
  shows "out = Exit 1 \<and>
         (\<exists>pre. evs = pre @ [Http_get req, Print (''Error fetching issues: '' @ e)] \<and>
                Http_get req \<notin> set pre)"
proof -
  from assms(1,2) main_requests[of req environ http]
  obtain tok where tok: "environ ''SONARQ_TOKEN'' = Some tok" "tok \<noteq> ''''"
    and mem: "Http_get req \<in> set (fst (get_issues http (configured_client environ) 500))"
    by auto
  let ?loop = "get_issues_loop http (configured_client environ) 500 1 []"
  from mem have "Http_get req \<in> set (fst ?loop)" by (simp add: get_issues_fst)
  with loop_failure[of ?loop http "configured_client environ" 500 1 "[]"] assms(3)
  obtain pre where ex: "snd ?loop = Exit 1"
    and tr: "fst ?loop = pre @ [Http_get req, Print (''Error fetching issues: '' @ e)]"
    and nin: "Http_get req \<notin> set pre"
    by blast
  from ex tr have "get_issues http (configured_client environ) 500 =
      (pre @ [Http_get req, Print (''Error fetching issues: '' @ e)], Exit 1)"
    by (simp add: prod_eq_iff get_issues_fst get_issues_snd)
  with assms(1) tok have "out = Exit 1"
    and "evs = (start_lines environ @ pre) @ [Http_get req, Print (''Error fetching issues: '' @ e)]"
    by (simp_all add: main_token[of environ tok http])
  moreover from nin have "Http_get req \<notin> set (start_lines environ @ pre)"
    by (simp add: start_lines_no_request)
  ultimately show ?thesis by blast
qed

theorem request_failure_is_fatal_witness:
  "main example_environ failing_service =
     (start_lines example_environ @
      [Http_get (search_request (configured_client example_environ) 1),
       Print ''Error fetching issues: Read timed out.''], Exit 1) \<and>
   failing_service (search_request (configured_client example_environ) 1) =
     RequestException Timeout ''Read timed out.'' \<and>
   (\<exists>pre. start_lines example_environ @
          [Http_get (search_request (configured_client example_environ) 1),
           Print ''Error fetching issues: Read timed out.''] =
          pre @ [Http_get (search_request (configured_client example_environ) 1),
                 Print (''Error fetching issues: '' @ ''Read timed out.'')] \<and>
          Http_get (search_request (configured_client example_environ) 1) \<notin> set pre)"
proof -
  have run: "main example_environ failing_service =
     (start_lines example_environ @
      [Http_get (search_request (configured_client example_environ) 1),
       Print ''Error fetching issues: Read timed out.''], Exit 1)"
  proof -
    have tok: "example_environ ''SONARQ_TOKEN'' = Some ''secret''"
      by (simp add: example_environ_def)
    have "get_issues failing_service (configured_client example_environ) 500 =
       ([Http_get (search_request (configured_client example_environ) 1),
         Print ''Error fetching issues: Read timed out.''], Exit 1)"
      by (simp add: get_issues_def failing_service_def
            loop_fail[where kind = Timeout and e = "''Read timed out.''"])
    with main_token[of example_environ "''secret''" failing_service] tok show ?thesis
      by simp
  qed
  have bad: "failing_service (search_request (configured_client example_environ) 1) =
     RequestException Timeout ''Read timed out.''"
    by (simp add: failing_service_def)
  from request_failure_is_fatal[OF run _ bad] run bad show ?thesis by simp
qed

text \<open>
  C6. With \<^verbatim>\<open>SONARQ_TOKEN\<close> unset or empty, \<open>main\<close> prints one diagnostic and exits with
  status 1; its trace holds no HTTP request.
\<close>

theorem missing_token_exits_before_any_request:
  assumes "environ ''SONARQ_TOKEN'' = None \<or> environ ''SONARQ_TOKEN'' = Some ''''"
  shows "main environ http =
           ([Print ''Error: SONARQ_TOKEN environment variable not set''], Exit 1) \<and>
         (\<forall>req. Http_get req \<notin> set (fst (main environ http)))"
  using assms by (simp add: main_no_token)

theorem missing_token_exits_before_any_request_witness:
  "Map.empty ''SONARQ_TOKEN'' = (None :: string option) \<and>
   main Map.empty failing_service =
     ([Print ''Error: SONARQ_TOKEN environment variable not set''], Exit 1)"
  using missing_token_exits_before_any_request[of Map.empty failing_service] by simp

text \<open>
  C7. When the token is set and \<open>get_issues\<close> returns the empty list, \<open>main\<close> prints, after
  its four opening lines and the requests of the fetch, the single line
  \<^verbatim>\<open>No issues found.\<close> and ends with status 0. Nothing else is printed: no banner, no
  table; and no exception of the scoring, the sort or the rows can end the run.
\<close>

theorem no_issues_notice:
  assumes "environ ''SONARQ_TOKEN'' = Some tok" and "tok \<noteq> ''''"
    and "get_issues http (configured_client environ) 500 = (evs, Return [])"
  shows "main environ http = (start_lines environ @ evs @ [Print ''No issues found.''], Exit 0) \<and>
         (\<forall>ev \<in> set evs. \<exists>req. ev = Http_get req)"
proof -
  from get_issues_cases[where http = http and self = "configured_client environ" and limit = 500]
    assms(3)
  have "\<forall>ev \<in> set evs. \<exists>req. ev = Http_get req" by simp
  with assms show ?thesis by (simp add: main_token[of environ tok http])
qed

theorem no_issues_notice_witness:
  "example_environ ''SONARQ_TOKEN'' = Some ''secret'' \<and>
   get_issues (paged_service []) (configured_client example_environ) 500 =
     ([Http_get (search_request (configured_client example_environ) 1)], Return []) \<and>
   main example_environ (paged_service []) =
     (start_lines example_environ @
      [Http_get (search_request (configured_client example_environ) 1)] @
      [Print ''No issues found.''], Exit 0)"
proof -
  have tok: "example_environ ''SONARQ_TOKEN'' = Some ''secret''"
    by (simp add: example_environ_def)
  have run: "get_issues (paged_service []) (configured_client example_environ) 500 =
     ([Http_get (search_request (configured_client example_environ) 1)], Return [])"
    by (simp add: get_issues_def slice_to_def paged_request data_issues_def
          loop_empty[where data = "\<lparr>body_issues = Some [], body_total = Some 0\<rparr>"])
  from no_issues_notice[OF tok _ run] tok run show ?thesis by simp
qed

section \<open>Scoring\<close>

lemma score_issue_Inr:
  "score_issue x = Inr y \<longleftrightarrow>
     (\<exists>s t. x ''severity'' = Some s \<and> x ''type'' = Some t \<and>
            y = x(''priority_score'' \<mapsto> PyFloat (get_priority_score s t)))"
  by (auto simp: score_issue_def dict_item_def split: option.splits)

lemma score_issues_Inr:
  "score_issues xs = Inr ys \<Longrightarrow> list_all2 (\<lambda>x y. score_issue x = Inr y) xs ys"
  by (induction xs arbitrary: ys) (auto split: sum.splits)





section \<open>Ranking\<close>

lemma list_index_Inr:
  "v \<in> set xs \<Longrightarrow> list_index xs v = Inr (length (takeWhile (\<lambda>y. y \<noteq> v) xs))"
  by (induction xs) auto

lemma list_index_Inl: "v \<notin> set xs \<Longrightarrow> list_index xs v = Inl ValueError"
  by (induction xs) auto

lemma priority_key_scored:
  assumes "x ''priority_score'' = Some (PyFloat r)" and "x ''severity'' = Some s"
  shows "priority_key x =
           (if s \<in> set severity_order then Inr (- stored_score x, severity_position x)
            else Inl ValueError)"
  using assms
  by (simp add: priority_key_def dict_item_def negate_def stored_score_def
        severity_position_def list_index_Inr list_index_Inl)


lemma keys_of_ValueError:
  "\<forall>x \<in> set xs. priority_key x = Inl ValueError \<or> (\<exists>k. priority_key x = Inr k) \<Longrightarrow>
   \<exists>x \<in> set xs. priority_key x = Inl ValueError \<Longrightarrow>
   keys_of xs = Inl ValueError"
proof (induction xs)
  case Nil
  then show ?case by simp
next
  case (Cons x xs)
  show ?case
  proof (cases "priority_key x")
    case (Inl e)
    with Cons.prems(1) show ?thesis by auto
  next
    case (Inr k)
    with Cons.prems have "\<exists>x \<in> set xs. priority_key x = Inl ValueError" by auto
    with Cons.IH Cons.prems(1) Inr show ?thesis by simp
  qed
qed




section \<open>Scoring and sorting together\<close>

lemma scored_fields:
  assumes "score_issue x = Inr y"
  shows "\<exists>s t. x ''severity'' = Some s \<and> x ''type'' = Some t \<and>
               y ''severity'' = Some s \<and> y ''type'' = Some t \<and>
               y ''priority_score'' = Some (PyFloat (get_priority_score s t)) \<and>
               stored_score y = get_priority_score s t"
  using assms unfolding score_issue_Inr by (auto simp: stored_score_def)


lemma scored_origin:
  assumes "score_issues xs = Inr ys" and "y \<in> set ys"
  shows "\<exists>x \<in> set xs. score_issue x = Inr y"
proof -
  from assms(1) have rel: "list_all2 (\<lambda>x y. score_issue x = Inr y) xs ys"
    by (rule score_issues_Inr)
  from assms(2) obtain k where k: "k < length ys" "ys ! k = y"
    by (auto simp: in_set_conv_nth)
  with rel have "score_issue (xs ! k) = Inr y" "k < length xs"
    by (auto simp: list_all2_conv_all_nth)
  then show ?thesis by auto
qed

lemma scored_image:
  assumes "score_issues xs = Inr ys" and "x \<in> set xs"
  shows "\<exists>y \<in> set ys. score_issue x = Inr y"
proof -
  from assms(1) have rel: "list_all2 (\<lambda>x y. score_issue x = Inr y) xs ys"
    by (rule score_issues_Inr)
  from assms(2) obtain k where k: "k < length xs" "xs ! k = x"
    by (auto simp: in_set_conv_nth)
  with rel have "score_issue x = Inr (ys ! k)" "k < length ys"
    by (auto simp: list_all2_conv_all_nth)
  then show ?thesis by auto
qed



lemma score_outside_table:
  "s \<notin> set severity_order \<Longrightarrow> get_priority_score s t = 0"
  unfolding get_priority_score_def Let_def severity_score_cases
  by (auto simp: severity_order_def)

text \<open>
  C10. If a list that the scoring loop accepts holds an issue whose severity is outside the
  fixed list, the sort ends with \<^verbatim>\<open>ValueError\<close>, raised by \<^verbatim>\<open>index\<close> in the key function,
  and produces no order; yet the scorer gives that severity the score 0 with any type.
\<close>

theorem unknown_severity_fails_the_sort:
  assumes "score_issues issues = Inr scored"
    and "x \<in> set issues" and "x ''severity'' = Some s" and "s \<notin> set severity_order"
  shows "sort_issues scored = Inl ValueError \<and> (\<forall>t. get_priority_score s t = 0)"
proof -
  have each: "priority_key y = Inl ValueError \<or> (\<exists>k. priority_key y = Inr k)"
    if "y \<in> set scored" for y
  proof -
    from scored_origin[OF assms(1) that] obtain x' where "score_issue x' = Inr y" by auto
    from scored_fields[OF this] show ?thesis
      by (auto simp: priority_key_scored)
  qed
  from scored_image[OF assms(1,2)] obtain y where y: "y \<in> set scored" "score_issue x = Inr y"
    by auto
  from scored_fields[OF y(2)] assms(3,4) have "priority_key y = Inl ValueError"
    by (auto simp: priority_key_scored)
  with y(1) each have "keys_of scored = Inl ValueError"
    by (intro keys_of_ValueError) auto
  then show ?thesis
    using assms(4) by (simp add: sort_issues_def score_outside_table)
qed

theorem unknown_severity_fails_the_sort_witness:
  "score_issues [unknown_severity_issue] =
     Inr [unknown_severity_issue(''priority_score'' \<mapsto> PyFloat 0)] \<and>
   unknown_severity_issue ''severity'' = Some (PyStr ''TRIVIAL'') \<and>
   PyStr ''TRIVIAL'' \<notin> set severity_order \<and>
   sort_issues [unknown_severity_issue(''priority_score'' \<mapsto> PyFloat 0)] = Inl ValueError \<and>
   get_priority_score (PyStr ''TRIVIAL'') (PyStr ''CODE_SMELL'') = 0"
proof -
  have out: "PyStr ''TRIVIAL'' \<notin> set severity_order"
    by (simp add: severity_order_def)
  have sev: "unknown_severity_issue ''severity'' = Some (PyStr ''TRIVIAL'')"
    by (simp add: unknown_severity_issue_def)
  have run: "score_issues [unknown_severity_issue] =
     Inr [unknown_severity_issue(''priority_score'' \<mapsto> PyFloat 0)]"
    by (simp add: score_issue_def dict_item_def unknown_severity_issue_def
          score_outside_table[OF out])
  from unknown_severity_fails_the_sort
         [where issues = "[unknown_severity_issue]" and x = unknown_severity_issue, OF run _ sev out]
       run sev out
  show ?thesis by simp
qed



section \<open>Rows\<close>













end
